theory Spec2Isabelle
  imports Main "HOL-Library.Sublist"
begin

section \<open>The book catalogue controller\<close>

text \<open>
  The script keeps two module variables, \<open>page\<close> and \<open>matches\<close>, and reacts to
  DOM events. The embedding follows the refactored script (the one that defines
  \<open>displayBooks\<close> and calls it during initialisation); the older handlers of
  \<open>scripts.js\<close> that a statement refers to are embedded beside it.

  Numbers are JavaScript numbers holding integers far below \<open>2^53\<close>; they are
  \<open>int\<close> here. Strings are sequences of code units, restricted to the range
  U+0000..U+00FF, one \<open>char\<close> each. That range is closed under \<open>toLowerCase\<close>.
\<close>

subsection \<open>Built-in string and array operations\<close>

text \<open>White space and line terminators of ECMAScript in the range U+0000..U+00FF:
  TAB, LF, VT, FF, CR, SP and NBSP. \<open>String.prototype.trim\<close> strips them from both ends.\<close>

definition isWhiteSpace :: "char \<Rightarrow> bool" where
  "isWhiteSpace c = (of_char c \<in> {9, 10, 11, 12, 13, 32, 160 :: nat})"

definition trim :: "string \<Rightarrow> string" where
  "trim s = rev (dropWhile isWhiteSpace (rev (dropWhile isWhiteSpace s)))"

text \<open>\<open>String.prototype.toLowerCase\<close>: in the range U+0000..U+00FF the letters with a
  lower-case mapping are A..Z, U+00C0..U+00D6 and U+00D8..U+00DE, each mapped 32 up.\<close>

definition toLowerCase_char :: "char \<Rightarrow> char" where
  "toLowerCase_char c =
     (let n = of_char c :: nat
      in if (65 \<le> n \<and> n \<le> 90) \<or> (192 \<le> n \<and> n \<le> 214) \<or> (216 \<le> n \<and> n \<le> 222)
         then char_of (n + 32) else c)"

definition toLowerCase :: "string \<Rightarrow> string" where
  "toLowerCase s = map toLowerCase_char s"

text \<open>\<open>String.prototype.includes\<close>: the search string is compared with the code units
  at position 0, then 1, and so on, up to the end of the string.\<close>

fun startsWith :: "'a list \<Rightarrow> 'a list \<Rightarrow> bool" where
  "startsWith s [] = True"
| "startsWith [] (q # qs) = False"
| "startsWith (c # cs) (q # qs) = (c = q \<and> startsWith cs qs)"

fun includes_str :: "'a list \<Rightarrow> 'a list \<Rightarrow> bool" where
  "includes_str [] q = startsWith [] q"
| "includes_str (c # cs) q = (startsWith (c # cs) q \<or> includes_str cs q)"

text \<open>\<open>Array.prototype.includes\<close> on an array of strings.\<close>

definition includes_arr :: "'a list \<Rightarrow> 'a \<Rightarrow> bool" where
  "includes_arr xs x = (x \<in> set xs)"

text \<open>\<open>Array.prototype.slice(start, end)\<close> with integer arguments: a negative index
  counts from the end, and both indices are clamped to the array.\<close>

definition slice :: "'a list \<Rightarrow> int \<Rightarrow> int \<Rightarrow> 'a list" where
  "slice xs start fin =
     (let len = int (length xs);
          k = (if start < 0 then max (len + start) 0 else min start len);
          final = (if fin < 0 then max (len + fin) 0 else min fin len)
      in take (nat (final - k)) (drop (nat k) xs))"

subsection \<open>The data of \<open>data.js\<close>\<close>

record book =
  id_book :: string
  title :: string
  author :: string
  image_book :: string
  description :: string
  genres :: "string list"
  published :: string

text \<open>\<open>data.js\<close> is not among the sources. Its exports are parameters: the book array,
  the author object (as its entries), and the page size. Two facts of the host are
  parameters as well: whether the colour scheme preference is dark, and the local year
  that \<open>new Date(published).getFullYear()\<close> prints.\<close>

record env =
  books :: "book list"
  authors :: "(string \<times> string) list"
  BOOKS_PER_PAGE :: int
  prefers_dark :: bool
  getFullYear :: "string \<Rightarrow> string"

text \<open>\<open>${authors[author]}\<close> inside a template: a missing key prints as \<open>undefined\<close>.\<close>

definition author_name :: "env \<Rightarrow> string \<Rightarrow> string" where
  "author_name e a = (case map_of (authors e) a of None \<Rightarrow> ''undefined'' | Some n \<Rightarrow> n)"

subsection \<open>The document\<close>

text \<open>A preview button built by \<open>createBookElement\<close>: its \<open>data-preview\<close> attribute, the
  image source, the title and the author line.\<close>

record preview =
  data_preview :: string
  preview_image :: string
  preview_title :: string
  preview_author :: string

definition createBookElement :: "env \<Rightarrow> book \<Rightarrow> preview" where
  "createBookElement e b =
     \<lparr> data_preview = id_book b, preview_image = image_book b,
       preview_title = title b, preview_author = author_name e (author b) \<rparr>"

text \<open>The module variables and the parts of the document the handlers write. The
  keyboard focus and the scroll position of the window are not part of the state.\<close>

record state =
  page :: int
  matches :: "book list"
  list_items :: "preview list"
  list_button_disabled :: bool
  list_button_remaining :: int
  list_message_show :: bool
  search_overlay_open :: bool
  settings_overlay_open :: bool
  list_active_open :: bool
  list_blur_src :: string
  list_image_src :: string
  list_title :: string
  list_subtitle :: string
  list_description :: string
  settings_theme :: string
  color_dark :: string
  color_light :: string

text \<open>\<open>displayBooks\<close> appends one preview per book to the list container.\<close>

definition displayBooks :: "env \<Rightarrow> book list \<Rightarrow> state \<Rightarrow> state" where
  "displayBooks e bs s = s\<lparr> list_items := list_items s @ map (createBookElement e) bs \<rparr>"

definition updateTheme :: "string \<Rightarrow> state \<Rightarrow> state" where
  "updateTheme theme s =
     s\<lparr> color_dark := (if theme = ''night'' then ''255, 255, 255'' else ''10, 10, 20''),
        color_light := (if theme = ''night'' then ''10, 10, 20'' else ''255, 255, 255'') \<rparr>"

definition initializeTheme :: "env \<Rightarrow> state \<Rightarrow> state" where
  "initializeTheme e s =
     (let theme = (if prefers_dark e then ''night'' else ''day'')
      in updateTheme theme (s\<lparr> settings_theme := theme \<rparr>))"

subsection \<open>The search form\<close>

record filters =
  title_f :: string
  author_f :: string
  genre :: string

definition genreMatch :: "filters \<Rightarrow> book \<Rightarrow> bool" where
  "genreMatch f b = (genre f = ''any'' \<or> includes_arr (genres b) (genre f))"

definition titleMatch :: "filters \<Rightarrow> book \<Rightarrow> bool" where
  "titleMatch f b =
     (trim (title_f f) = '''' \<or> includes_str (toLowerCase (title b)) (toLowerCase (title_f f)))"

definition authorMatch :: "filters \<Rightarrow> book \<Rightarrow> bool" where
  "authorMatch f b = (author_f f = ''any'' \<or> author b = author_f f)"

definition search_result :: "env \<Rightarrow> filters \<Rightarrow> book list" where
  "search_result e f =
     filter (\<lambda>b. titleMatch f b \<and> authorMatch f b \<and> genreMatch f b) (books e)"

text \<open>The submit handler of the search form, statement by statement. Scrolling the
  window is outside the state.\<close>

definition search_submit :: "env \<Rightarrow> filters \<Rightarrow> state \<Rightarrow> state" where
  "search_submit e f s =
     (let result = search_result e f;
          s1 = s\<lparr> page := 1 \<rparr>;
          s2 = s1\<lparr> matches := result \<rparr>;
          s3 = s2\<lparr> list_message_show := (length result < 1) \<rparr>;
          s4 = s3\<lparr> list_items := [] \<rparr>;
          s5 = displayBooks e (slice (matches s4) 0 (BOOKS_PER_PAGE e)) s4;
          s6 = s5\<lparr> list_button_disabled :=
                     (int (length (matches s5)) - page s5 * BOOKS_PER_PAGE e < 1) \<rparr>;
          s7 = s6\<lparr> list_button_remaining :=
                     int (length (matches s6)) - page s6 * BOOKS_PER_PAGE e \<rparr>
      in s7\<lparr> search_overlay_open := False \<rparr>)"

subsection \<open>Show more\<close>

definition show_more :: "env \<Rightarrow> state \<Rightarrow> state" where
  "show_more e s =
     (let s1 = displayBooks e
                 (slice (matches s) (page s * BOOKS_PER_PAGE e) ((page s + 1) * BOOKS_PER_PAGE e)) s
      in s1\<lparr> page := page s1 + 1 \<rparr>)"

text \<open>The handler of \<open>scripts.js\<close> builds the fragment in a loop of its own instead of
  calling \<open>displayBooks\<close>.\<close>

fun fragment_loop :: "env \<Rightarrow> book list \<Rightarrow> preview list \<Rightarrow> preview list" where
  "fragment_loop e [] fragment = fragment"
| "fragment_loop e (b # bs) fragment =
     fragment_loop e bs
       (fragment @ [\<lparr> data_preview = id_book b, preview_image = image_book b,
                      preview_title = title b, preview_author = author_name e (author b) \<rparr>])"

definition show_more_scripts :: "env \<Rightarrow> state \<Rightarrow> state" where
  "show_more_scripts e s =
     (let fragment = fragment_loop e
            (slice (matches s) (page s * BOOKS_PER_PAGE e) ((page s + 1) * BOOKS_PER_PAGE e)) [];
          s1 = s\<lparr> list_items := list_items s @ fragment \<rparr>
      in s1\<lparr> page := page s1 + 1 \<rparr>)"

subsection \<open>Selecting a book\<close>

text \<open>A node of the event's composed path: \<open>node?.dataset?.preview\<close> is a string, or
  undefined (\<open>None\<close>) for a node without that attribute or without a dataset.\<close>

record node =
  dataset_preview :: "string option"

text \<open>Truthiness of \<open>node?.dataset?.preview\<close>: a non-empty string.\<close>

definition truthy :: "string option \<Rightarrow> bool" where
  "truthy v = (case v of None \<Rightarrow> False | Some x \<Rightarrow> x \<noteq> '''')"

definition active_of :: "node list \<Rightarrow> string option" where
  "active_of pathArray =
     (case List.find (\<lambda>n. truthy (dataset_preview n)) pathArray of
        None \<Rightarrow> None
      | Some n \<Rightarrow> dataset_preview n)"

definition list_items_click :: "env \<Rightarrow> node list \<Rightarrow> state \<Rightarrow> state" where
  "list_items_click e pathArray s =
     (let active = active_of pathArray
      in if truthy active then
           (case List.find (\<lambda>singleBook. Some (id_book singleBook) = active) (books e) of
              None \<Rightarrow> s
            | Some b \<Rightarrow>
                s\<lparr> list_active_open := True,
                   list_blur_src := image_book b,
                   list_image_src := image_book b,
                   list_title := title b,
                   list_subtitle :=
                     author_name e (author b) @ '' ('' @ getFullYear e (published b) @ '')'',
                   list_description := description b \<rparr>)
         else s)"

subsection \<open>Events and runs\<close>

datatype event =
    HeaderSearchClick
  | SearchCancelClick
  | HeaderSettingsClick
  | SettingsCancelClick
  | ListCloseClick
  | SettingsSubmit string
  | SearchSubmit filters
  | ListButtonClick
  | ListItemsClick "node list"

fun handle :: "env \<Rightarrow> state \<Rightarrow> event \<Rightarrow> state" where
  "handle e s HeaderSearchClick = s\<lparr> search_overlay_open := True \<rparr>"
| "handle e s SearchCancelClick = s\<lparr> search_overlay_open := False \<rparr>"
| "handle e s HeaderSettingsClick = s\<lparr> settings_overlay_open := True \<rparr>"
| "handle e s SettingsCancelClick = s\<lparr> settings_overlay_open := False \<rparr>"
| "handle e s ListCloseClick = s\<lparr> list_active_open := False \<rparr>"
| "handle e s (SettingsSubmit theme) = (updateTheme theme s)\<lparr> settings_overlay_open := False \<rparr>"
| "handle e s (SearchSubmit f) = search_submit e f s"
| "handle e s ListButtonClick = show_more e s"
| "handle e s (ListItemsClick pathArray) = list_items_click e pathArray s"

definition run :: "env \<Rightarrow> state \<Rightarrow> event list \<Rightarrow> state" where
  "run e s evs = foldl (handle e) s evs"

text \<open>The initialisation at the end of the script, applied to the freshly loaded
  document \<open>d\<close>: the module variables are set, the first page is displayed, the theme is
  initialised and the button is labelled and enabled or disabled. Filling the two
  dropdowns is outside the state.\<close>

definition startup :: "env \<Rightarrow> state \<Rightarrow> state" where
  "startup e d =
     (let s0 = d\<lparr> page := 1, matches := books e \<rparr>;
          s1 = displayBooks e (slice (matches s0) 0 (BOOKS_PER_PAGE e)) s0;
          s2 = initializeTheme e s1;
          s3 = s2\<lparr> list_button_remaining := int (length (books e)) - BOOKS_PER_PAGE e \<rparr>
      in s3\<lparr> list_button_disabled :=
               (int (length (matches s3)) - page s3 * BOOKS_PER_PAGE e \<le> 0) \<rparr>)"

text \<open>The page markup is not among the sources. The freshly loaded document has an empty
  list container, closed overlays and an enabled button.\<close>

definition blank_document :: state where
  "blank_document =
     \<lparr> page = 0, matches = [], list_items = [], list_button_disabled = False,
       list_button_remaining = 0, list_message_show = False,
       search_overlay_open = False, settings_overlay_open = False,
       list_active_open = False, list_blur_src = '''', list_image_src = '''',
       list_title = '''', list_subtitle = '''', list_description = '''',
       settings_theme = '''', color_dark = '''', color_light = '''' \<rparr>"

subsection \<open>The notions of the specification\<close>

text \<open>The title \<open>t\<close> contains the query \<open>q\<close> as a case-insensitive substring: the
  lower-cased query is a contiguous part of the lower-cased title.\<close>

definition contains_ci :: "string \<Rightarrow> string \<Rightarrow> bool" where
  "contains_ci t q = sublist (toLowerCase q) (toLowerCase t)"

text \<open>The inclusion condition in the specification's words: the title query is empty or
  contained in the title, the author query is \<open>any\<close> or the book's author, the genre query
  is \<open>any\<close> or one of the book's genres.\<close>

definition included_as_stated :: "filters \<Rightarrow> book \<Rightarrow> bool" where
  "included_as_stated f b =
     ((title_f f = '''' \<or> contains_ci (title b) (title_f f))
      \<and> (author_f f = ''any'' \<or> author_f f = author b)
      \<and> (genre f = ''any'' \<or> genre f \<in> set (genres b)))"

text \<open>\<open>remaining(page) = |results| - page * pageSize\<close>.\<close>

definition remaining :: "env \<Rightarrow> state \<Rightarrow> int" where
  "remaining e s = int (length (matches s)) - page s * BOOKS_PER_PAGE e"

text \<open>\<open>ceil(n / pageSize) - 1\<close> for a positive page size.\<close>

definition reveals_needed :: "env \<Rightarrow> nat \<Rightarrow> nat" where
  "reveals_needed e n = nat ((int n + BOOKS_PER_PAGE e - 1) div BOOKS_PER_PAGE e - 1)"

text \<open>The list container shows the first \<open>page * pageSize\<close> matches, in order.\<close>

definition rendered_inv :: "env \<Rightarrow> state \<Rightarrow> bool" where
  "rendered_inv e s =
     (list_items s = map (createBookElement e) (take (nat (page s * BOOKS_PER_PAGE e)) (matches s)))"

subsection \<open>A small catalogue\<close>

definition hobbit :: book where
  "hobbit = \<lparr> id_book = ''h1'', title = ''The Hobbit'', author = ''a1'',
     image_book = ''hobbit.jpg'', description = ''There and back again'',
     genres = [''g1''], published = ''1937-09-21'' \<rparr>"

definition dune :: book where
  "dune = \<lparr> id_book = ''d1'', title = ''Dune'', author = ''a2'',
     image_book = ''dune.jpg'', description = ''Arrakis'',
     genres = [''g2''], published = ''1965-08-01'' \<rparr>"

definition towers :: book where
  "towers = \<lparr> id_book = ''t1'', title = ''The Two Towers'', author = ''a1'',
     image_book = ''towers.jpg'', description = ''The second part'',
     genres = [''g1''], published = ''1954-11-11'' \<rparr>"

definition shelf :: env where
  "shelf = \<lparr> books = [hobbit, dune, towers],
     authors = [(''a1'', ''Tolkien''), (''a2'', ''Herbert'')],
     BOOKS_PER_PAGE = 2, prefers_dark = False, getFullYear = take 4 \<rparr>"

definition query :: "string \<Rightarrow> filters" where
  "query t = \<lparr> title_f = t, author_f = ''any'', genre = ''any'' \<rparr>"

text \<open>The state after startup on the small catalogue, and after one click on the button:
  the page size is 2 and there are 3 books.\<close>

definition shelf_started :: state where
  "shelf_started = startup shelf blank_document"

definition shelf_clicked :: state where
  "shelf_clicked = run shelf shelf_started [ListButtonClick]"

text \<open>The state after a search for \<open>hobbit\<close>, which leaves one match.\<close>

definition shelf_searched :: state where
  "shelf_searched = run shelf shelf_started [SearchSubmit (query ''hobbit'')]"

section \<open>Properties of the built-in operations\<close>

lemma startsWith_prefix: "startsWith s q \<longleftrightarrow> prefix q s"
  by (induction s q rule: startsWith.induct) auto

lemma includes_str_sublist: "includes_str s q \<longleftrightarrow> sublist q s"
  by (induction s) (auto simp: startsWith_prefix sublist_Cons_right)

lemma dropWhile_all_set: "(\<forall>x\<in>set (dropWhile P s). P x) \<longleftrightarrow> (\<forall>x\<in>set s. P x)"
  by (induction s) auto

lemma trim_empty_iff: "trim s = [] \<longleftrightarrow> (\<forall>c\<in>set s. isWhiteSpace c)"
  by (simp add: trim_def dropWhile_eq_Nil_conv dropWhile_all_set)

lemma toLowerCase_char_space: "isWhiteSpace c \<Longrightarrow> toLowerCase_char c = c"
  by (auto simp: isWhiteSpace_def toLowerCase_char_def Let_def)

lemma take_drop_nth:
  "take n (drop a xs) = map ((!) xs) [a ..< min (a + n) (length xs)]"
proof (rule nth_equalityI)
  show "length (take n (drop a xs)) = length (map ((!) xs) [a ..< min (a + n) (length xs)])"
    by (auto simp: min_def)
next
  fix i
  assume "i < length (take n (drop a xs))"
  then have "i < n" and "a + i < length xs" by auto
  then show "take n (drop a xs) ! i = map ((!) xs) [a ..< min (a + n) (length xs)] ! i"
    by (simp add: min_def)
qed

lemma slice_nonneg:
  "0 \<le> a \<Longrightarrow> a \<le> b \<Longrightarrow> slice xs a b = take (nat (b - a)) (drop (nat a) xs)"
  by (auto simp: slice_def Let_def min_def)

lemma slice_indices:
  assumes "0 \<le> a" "a \<le> b"
  shows "slice xs a b = map ((!) xs) [nat a ..< min (nat b) (length xs)]"
proof -
  have "nat a + nat (b - a) = nat b" using assms by simp
  then show ?thesis using assms by (simp add: slice_nonneg take_drop_nth)
qed

lemma slice_beyond:
  "0 \<le> a \<Longrightarrow> a \<le> b \<Longrightarrow> int (length xs) \<le> a \<Longrightarrow> slice xs a b = []"
  by (simp add: slice_nonneg)

lemma fragment_loop_map: "fragment_loop e bs fr = fr @ map (createBookElement e) bs"
  by (induction bs arbitrary: fr) (auto simp: createBookElement_def)

lemma show_more_scripts_eq: "show_more_scripts e s = show_more e s"
  by (simp add: show_more_scripts_def show_more_def displayBooks_def fragment_loop_map Let_def)

section \<open>Filtering\<close>

lemma titleMatch_iff:
  "titleMatch f b \<longleftrightarrow>
     (\<forall>c\<in>set (title_f f). isWhiteSpace c) \<or> contains_ci (title b) (title_f f)"
  by (simp add: titleMatch_def trim_empty_iff includes_str_sublist contains_ci_def)

text \<open>
  C1 (as amended). A book of the dataset is in the result of a query exactly when the
  title query is empty or consists of white space only, or the title contains the
  query as a case-insensitive substring; and the author query is \<open>any\<close> or the book's
  author; and the genre query is \<open>any\<close> or one of the book's genres.
\<close>

theorem search_result_membership:
  assumes "b \<in> set (books e)"
  shows "b \<in> set (search_result e f) \<longleftrightarrow>
           ((\<forall>c\<in>set (title_f f). isWhiteSpace c) \<or> contains_ci (title b) (title_f f))
         \<and> (author_f f = ''any'' \<or> author_f f = author b)
         \<and> (genre f = ''any'' \<or> genre f \<in> set (genres b))"
  using assms
  by (auto simp: search_result_def titleMatch_iff authorMatch_def genreMatch_def includes_arr_def)

theorem search_result_membership_witness:
  "hobbit \<in> set (books shelf)
   \<and> hobbit \<in> set (search_result shelf (query ''the''))
   \<and> contains_ci (title hobbit) (title_f (query ''the''))
   \<and> dune \<in> set (books shelf)
   \<and> dune \<notin> set (search_result shelf (query ''the''))
   \<and> \<not> contains_ci (title dune) (title_f (query ''the''))"
proof -
  have h: "hobbit \<in> set (books shelf)" and d: "dune \<in> set (books shelf)"
    by code_simp+
  have c1: "contains_ci (title hobbit) (title_f (query ''the''))"
    and a: "author_f (query ''the'') = ''any''" and g: "genre (query ''the'') = ''any''"
    and c2: "\<not> contains_ci (title dune) (title_f (query ''the''))"
    and w: "\<exists>c\<in>set (title_f (query ''the'')). \<not> isWhiteSpace c"
    by code_simp+
  have "hobbit \<in> set (search_result shelf (query ''the''))"
    using search_result_membership [OF h, of "query ''the''"] c1 a g by blast
  moreover have "dune \<notin> set (search_result shelf (query ''the''))"
    using search_result_membership [OF d, of "query ''the''"] c2 w by blast
  ultimately show ?thesis using h d c1 c2 by blast
qed

text \<open>
  C1 (as stated) fails for a query of one space: \<open>Dune\<close> is in the result, although the
  query is not empty and the title contains no space.
\<close>

theorem search_result_blank_query_counterexample:
  "\<not> (dune \<in> set (search_result shelf (query '' '')) \<longleftrightarrow> included_as_stated (query '' '') dune)"
  by code_simp

text \<open>
  C4. The result of a query is a subsequence of the dataset: it is obtained from the
  dataset by deleting records, so every result record is a dataset record and the
  relative order of the dataset is kept.
\<close>

theorem search_result_subseq:
  "subseq (search_result e f) (books e)
   \<and> set (search_result e f) \<subseteq> set (books e)
   \<and> (\<exists>N. search_result e f = nths (books e) N)"
proof -
  have "subseq (search_result e f) (books e)"
    by (simp add: search_result_def)
  moreover from this have "\<exists>N. search_result e f = nths (books e) N"
    by (simp add: subseq_conv_nths)
  moreover have "set (search_result e f) \<subseteq> set (books e)"
    by (auto simp: search_result_def)
  ultimately show ?thesis by blast
qed

theorem search_result_subseq_witness:
  "search_result shelf (query ''the'') = [hobbit, towers]
   \<and> books shelf = [hobbit, dune, towers]
   \<and> subseq [hobbit, towers] [hobbit, dune, towers]"
proof -
  have r: "search_result shelf (query ''the'') = [hobbit, towers]"
    and b: "books shelf = [hobbit, dune, towers]"
    by code_simp+
  from search_result_subseq [of shelf "query ''the''"]
  have "subseq (search_result shelf (query ''the'')) (books shelf)" by blast
  then show ?thesis using r b by simp
qed

text \<open>
  C10. A title query of white space only matches every record. A title query with a
  character that is not white space is compared untrimmed: the title matches exactly
  when the lower-cased title contains the whole lower-cased query, whose white space
  is left as it is by lower-casing.
\<close>

theorem titleMatch_whitespace:
  "((\<forall>c\<in>set (title_f f). isWhiteSpace c) \<longrightarrow> titleMatch f b)
   \<and> ((\<exists>c\<in>set (title_f f). \<not> isWhiteSpace c) \<longrightarrow>
        (titleMatch f b \<longleftrightarrow> sublist (toLowerCase (title_f f)) (toLowerCase (title b))))
   \<and> (\<forall>i<length (title_f f). isWhiteSpace (title_f f ! i) \<longrightarrow>
        toLowerCase (title_f f) ! i = title_f f ! i)"
proof (intro conjI impI allI)
  assume "\<forall>c\<in>set (title_f f). isWhiteSpace c"
  then show "titleMatch f b" by (simp add: titleMatch_iff)
next
  assume "\<exists>c\<in>set (title_f f). \<not> isWhiteSpace c"
  then show "titleMatch f b \<longleftrightarrow> sublist (toLowerCase (title_f f)) (toLowerCase (title b))"
    by (auto simp: titleMatch_iff contains_ci_def)
next
  fix i
  assume "i < length (title_f f)" and "isWhiteSpace (title_f f ! i)"
  then show "toLowerCase (title_f f) ! i = title_f f ! i"
    by (simp add: toLowerCase_def toLowerCase_char_space)
qed

theorem titleMatch_whitespace_witness:
  "list_all isWhiteSpace (title_f (query ''  ''))
   \<and> titleMatch (query ''  '') dune
   \<and> (\<exists>c\<in>set (title_f (query '' dune'')). \<not> isWhiteSpace c)
   \<and> \<not> sublist (toLowerCase (title_f (query '' dune''))) (toLowerCase (title dune))
   \<and> \<not> titleMatch (query '' dune'') dune"
proof -
  have blank: "\<forall>c\<in>set (title_f (query ''  '')). isWhiteSpace c"
    and solid: "\<exists>c\<in>set (title_f (query '' dune'')). \<not> isWhiteSpace c"
    and miss: "\<not> sublist (toLowerCase (title_f (query '' dune''))) (toLowerCase (title dune))"
    by code_simp+
  have "titleMatch (query ''  '') dune"
    using titleMatch_whitespace [of "query ''  ''" dune] blank by blast
  moreover have "\<not> titleMatch (query '' dune'') dune"
    using titleMatch_whitespace [of "query '' dune''" dune] solid miss by blast
  moreover have "list_all isWhiteSpace (title_f (query ''  ''))"
    using blank by (simp add: list_all_iff)
  ultimately show ?thesis using solid miss by blast
qed

section \<open>Pagination\<close>

lemma page_startup: "page (startup e d) = 1"
  by (simp add: startup_def Let_def displayBooks_def initializeTheme_def updateTheme_def)

lemma page_handle: "1 \<le> page s \<Longrightarrow> 1 \<le> page (handle e s ev)"
  by (cases ev)
     (simp_all add: search_submit_def show_more_def list_items_click_def Let_def
        displayBooks_def updateTheme_def split: option.splits)

lemma page_foldl: "1 \<le> page s \<Longrightarrow> 1 \<le> page (foldl (handle e) s evs)"
  by (induction evs arbitrary: s) (simp_all add: page_handle)

lemma page_run: "1 \<le> page (run e (startup e d) evs)"
  by (simp add: run_def page_foldl page_startup)

lemma rendered_startup:
  "list_items d = [] \<Longrightarrow> 0 \<le> BOOKS_PER_PAGE e \<Longrightarrow> rendered_inv e (startup e d)"
  by (simp add: rendered_inv_def startup_def Let_def displayBooks_def initializeTheme_def
      updateTheme_def slice_nonneg)

lemma rendered_search_submit:
  "0 \<le> BOOKS_PER_PAGE e \<Longrightarrow> rendered_inv e (search_submit e f s)"
  by (simp add: rendered_inv_def search_submit_def Let_def displayBooks_def slice_nonneg)

lemma rendered_show_more:
  assumes "0 \<le> BOOKS_PER_PAGE e" "1 \<le> page s" "rendered_inv e s"
  shows "rendered_inv e (show_more e s)"
proof -
  let ?B = "BOOKS_PER_PAGE e"
  have a: "0 \<le> page s * ?B" using assms by simp
  have b: "page s * ?B \<le> (page s + 1) * ?B" using assms by (simp add: algebra_simps)
  have c: "nat ((page s + 1) * ?B) = nat (page s * ?B) + nat ((page s + 1) * ?B - page s * ?B)"
    using a b by simp
  have "take (nat ((page s + 1) * ?B)) (matches s)
      = take (nat (page s * ?B)) (matches s) @ slice (matches s) (page s * ?B) ((page s + 1) * ?B)"
    by (simp only: slice_nonneg [OF a b] c take_add)
  then show ?thesis
    using assms(3) by (simp add: rendered_inv_def show_more_def Let_def displayBooks_def)
qed

lemma rendered_handle:
  "0 \<le> BOOKS_PER_PAGE e \<Longrightarrow> 1 \<le> page s \<Longrightarrow> rendered_inv e s
     \<Longrightarrow> rendered_inv e (handle e s ev)"
proof (cases ev)
  case (SearchSubmit f)
  assume "0 \<le> BOOKS_PER_PAGE e"
  then show ?thesis using SearchSubmit by (simp add: rendered_search_submit)
next
  case ListButtonClick
  assume "0 \<le> BOOKS_PER_PAGE e" "1 \<le> page s" "rendered_inv e s"
  then show ?thesis using ListButtonClick by (simp add: rendered_show_more)
qed (simp_all add: rendered_inv_def list_items_click_def Let_def updateTheme_def
       split: option.splits)

lemma rendered_foldl:
  "0 \<le> BOOKS_PER_PAGE e \<Longrightarrow> 1 \<le> page s \<Longrightarrow> rendered_inv e s
     \<Longrightarrow> rendered_inv e (foldl (handle e) s evs)"
  by (induction evs arbitrary: s) (simp_all add: rendered_handle page_handle)

lemma rendered_run:
  "list_items d = [] \<Longrightarrow> 0 \<le> BOOKS_PER_PAGE e \<Longrightarrow> rendered_inv e (run e (startup e d) evs)"
  by (simp add: run_def rendered_foldl rendered_startup page_startup)

text \<open>
  C3. The document is loaded with an empty list container and the page size is not
  negative. Then after startup and any sequence of events, the number of rendered
  previews is \<open>min (page * pageSize) |matches|\<close>.
\<close>

theorem rendered_count:
  assumes "list_items d = []" and "0 \<le> BOOKS_PER_PAGE e"
  shows "int (length (list_items (run e (startup e d) evs)))
       = min (page (run e (startup e d) evs) * BOOKS_PER_PAGE e)
             (int (length (matches (run e (startup e d) evs))))"
proof -
  let ?s = "run e (startup e d) evs"
  have "1 \<le> page ?s" by (rule page_run)
  then have "0 \<le> page ?s * BOOKS_PER_PAGE e" using assms(2) by simp
  then obtain n where n: "page ?s * BOOKS_PER_PAGE e = int n"
    using zero_le_imp_eq_int by blast
  have "rendered_inv e ?s" using assms by (rule rendered_run)
  then have "length (list_items ?s) = min (length (matches ?s)) n"
    by (simp add: rendered_inv_def n)
  then show ?thesis by (simp add: n min_def)
qed

theorem rendered_count_witness:
  "list_items blank_document = [] \<and> 0 \<le> BOOKS_PER_PAGE shelf
   \<and> page (run shelf (startup shelf blank_document) [SearchSubmit (query ''''), ListButtonClick]) = 2
   \<and> length (matches (run shelf (startup shelf blank_document)
        [SearchSubmit (query ''''), ListButtonClick])) = 3
   \<and> int (length (list_items (run shelf (startup shelf blank_document)
        [SearchSubmit (query ''''), ListButtonClick]))) = min (2 * 2) 3"
proof -
  let ?s = "run shelf (startup shelf blank_document) [SearchSubmit (query ''''), ListButtonClick]"
  have h1: "list_items blank_document = []" and h2: "0 \<le> BOOKS_PER_PAGE shelf"
    and p: "page ?s = 2" and m: "length (matches ?s) = 3" and b: "BOOKS_PER_PAGE shelf = 2"
    by code_simp+
  from rendered_count [OF h1 h2, of "[SearchSubmit (query ''''), ListButtonClick]"]
  have "int (length (list_items ?s)) = min (2 * 2) 3" by (simp add: p m b)
  then show ?thesis using h1 h2 p m by blast
qed

text \<open>
  C6. A filter submission sets the page to 1, replaces the match list by the result of
  the query, and leaves in the list container exactly the previews of the first page
  of that result, whatever was rendered before.
\<close>

theorem search_submit_resets:
  "page (search_submit e f s) = 1
   \<and> matches (search_submit e f s) = search_result e f
   \<and> list_items (search_submit e f s)
       = map (createBookElement e) (slice (search_result e f) 0 (BOOKS_PER_PAGE e))
   \<and> (0 \<le> BOOKS_PER_PAGE e \<longrightarrow>
        list_items (search_submit e f s)
          = map (createBookElement e) (take (nat (BOOKS_PER_PAGE e)) (search_result e f)))"
  by (simp add: search_submit_def Let_def displayBooks_def slice_nonneg)

theorem search_submit_resets_witness:
  "0 \<le> BOOKS_PER_PAGE shelf
   \<and> page (run shelf (startup shelf blank_document) [ListButtonClick]) = 2
   \<and> length (list_items (run shelf (startup shelf blank_document) [ListButtonClick])) = 3
   \<and> page (search_submit shelf (query ''the'')
        (run shelf (startup shelf blank_document) [ListButtonClick])) = 1
   \<and> list_items (search_submit shelf (query ''the'')
        (run shelf (startup shelf blank_document) [ListButtonClick]))
       = map (createBookElement shelf) [hobbit, towers]"
proof -
  let ?s = "run shelf (startup shelf blank_document) [ListButtonClick]"
  have h: "0 \<le> BOOKS_PER_PAGE shelf" and p: "page ?s = 2" and l: "length (list_items ?s) = 3"
    and r: "take (nat (BOOKS_PER_PAGE shelf)) (search_result shelf (query ''the''))
              = [hobbit, towers]"
    by code_simp+
  from search_submit_resets [of shelf "query ''the''" ?s] h r
  have "page (search_submit shelf (query ''the'') ?s) = 1
      \<and> list_items (search_submit shelf (query ''the'') ?s)
          = map (createBookElement shelf) [hobbit, towers]"
    by metis
  then show ?thesis using h p l by blast
qed

text \<open>
  C7. In every state reached from startup, with a page size that is not negative, a
  click on the button appends the previews of the matches at the indices from
  \<open>page * pageSize\<close> up to \<open>(page + 1) * pageSize\<close> (as far as the match list goes) after
  the rendered previews, which stay as they are, and adds 1 to the page. The handler of
  \<open>scripts.js\<close> does the same.
\<close>

theorem show_more_appends:
  assumes "0 \<le> BOOKS_PER_PAGE e" and "s = run e (startup e d) evs"
  shows "list_items (show_more e s)
           = list_items s @ map (createBookElement e)
               (map ((!) (matches s))
                 [nat (page s * BOOKS_PER_PAGE e)
                    ..< min (nat ((page s + 1) * BOOKS_PER_PAGE e)) (length (matches s))])
       \<and> take (length (list_items s)) (list_items (show_more e s)) = list_items s
       \<and> page (show_more e s) = page s + 1
       \<and> matches (show_more e s) = matches s
       \<and> show_more_scripts e s = show_more e s"
proof -
  let ?B = "BOOKS_PER_PAGE e"
  have "1 \<le> page s" using assms(2) by (simp add: page_run)
  then have a: "0 \<le> page s * ?B" and b: "page s * ?B \<le> (page s + 1) * ?B"
    using assms(1) by (simp_all add: algebra_simps)
  have "list_items (show_more e s)
          = list_items s @ map (createBookElement e)
              (slice (matches s) (page s * ?B) ((page s + 1) * ?B))"
    by (simp add: show_more_def Let_def displayBooks_def)
  then have items: "list_items (show_more e s)
          = list_items s @ map (createBookElement e)
              (map ((!) (matches s))
                [nat (page s * ?B) ..< min (nat ((page s + 1) * ?B)) (length (matches s))])"
    by (simp only: slice_indices [OF a b])
  have "take (length (list_items s)) (list_items (show_more e s)) = list_items s"
    by (simp add: items)
  moreover have "page (show_more e s) = page s + 1" "matches (show_more e s) = matches s"
    by (simp_all add: show_more_def Let_def displayBooks_def)
  ultimately show ?thesis using items show_more_scripts_eq by blast
qed

theorem show_more_appends_witness:
  "0 \<le> BOOKS_PER_PAGE shelf
   \<and> shelf_started = run shelf (startup shelf blank_document) []
   \<and> page shelf_started * BOOKS_PER_PAGE shelf < int (length (matches shelf_started))
   \<and> list_items shelf_started = map (createBookElement shelf) [hobbit, dune]
   \<and> list_items (show_more shelf shelf_started)
        = list_items shelf_started @ map (createBookElement shelf) [towers]
   \<and> page (show_more shelf shelf_started) = 2"
proof -
  have h: "0 \<le> BOOKS_PER_PAGE shelf"
    and r: "shelf_started = run shelf (startup shelf blank_document) []"
    and m: "page shelf_started * BOOKS_PER_PAGE shelf < int (length (matches shelf_started))"
    and l: "list_items shelf_started = map (createBookElement shelf) [hobbit, dune]"
    and p: "page shelf_started + 1 = 2"
    and i: "map ((!) (matches shelf_started))
              [nat (page shelf_started * BOOKS_PER_PAGE shelf)
                 ..< min (nat ((page shelf_started + 1) * BOOKS_PER_PAGE shelf))
                       (length (matches shelf_started))] = [towers]"
    by code_simp+
  note t = show_more_appends [OF h r]
  from t have A: "list_items (show_more shelf shelf_started)
      = list_items shelf_started @ map (createBookElement shelf)
          (map ((!) (matches shelf_started))
            [nat (page shelf_started * BOOKS_PER_PAGE shelf)
               ..< min (nat ((page shelf_started + 1) * BOOKS_PER_PAGE shelf))
                     (length (matches shelf_started))])"
    by blast
  from t have B: "page (show_more shelf shelf_started) = page shelf_started + 1"
    by blast
  have "list_items (show_more shelf shelf_started)
          = list_items shelf_started @ map (createBookElement shelf) [towers]"
    by (simp only: A i)
  moreover have "page (show_more shelf shelf_started) = 2"
    by (simp only: B p)
  ultimately show ?thesis using h r m l by blast
qed

text \<open>With nothing left to reveal the click handler appends nothing and still adds 1 to
  the page.\<close>

lemma show_more_nothing_left:
  assumes "0 \<le> BOOKS_PER_PAGE e" and "s = run e (startup e d) evs"
    and "int (length (matches s)) \<le> page s * BOOKS_PER_PAGE e"
  shows "show_more e s = s\<lparr> page := page s + 1 \<rparr>"
proof -
  let ?B = "BOOKS_PER_PAGE e"
  have "1 \<le> page s" using assms(2) by (simp add: page_run)
  then have a: "0 \<le> page s * ?B" and b: "page s * ?B \<le> (page s + 1) * ?B"
    using assms(1) by (simp_all add: algebra_simps)
  have "slice (matches s) (page s * ?B) ((page s + 1) * ?B) = []"
    using a b assms(3) by (rule slice_beyond)
  then show ?thesis
    by (simp add: show_more_def Let_def displayBooks_def)
qed

text \<open>Startup and the submit handler set the button from \<open>remaining\<close>; the click handler
  does not write the button.\<close>

lemma startup_button: "list_button_disabled (startup e d) \<longleftrightarrow> remaining e (startup e d) \<le> 0"
  by (simp add: startup_def remaining_def Let_def displayBooks_def initializeTheme_def
      updateTheme_def)

lemma search_submit_button:
  "list_button_disabled (search_submit e f s) \<longleftrightarrow> remaining e (search_submit e f s) \<le> 0"
  by (auto simp: search_submit_def remaining_def Let_def displayBooks_def)

lemma show_more_button: "list_button_disabled (show_more e s) = list_button_disabled s"
  by (simp add: show_more_def Let_def displayBooks_def)

text \<open>
  C9, evaluated. After startup on three books with page size 2 and one click on the
  enabled button, nothing is left to reveal (\<open>|matches| = 3 \<le> 4 = page * pageSize\<close>),
  but the button has not been disabled, since the click handler does not write it. A
  further click is therefore delivered, and it moves the page from 2 to 3.
\<close>

theorem click_after_last_page:
  "\<not> list_button_disabled shelf_started
   \<and> shelf_clicked = show_more shelf shelf_started
   \<and> int (length (matches shelf_clicked)) \<le> page shelf_clicked * BOOKS_PER_PAGE shelf
   \<and> \<not> list_button_disabled shelf_clicked
   \<and> page (show_more shelf shelf_clicked) = 3 \<and> page shelf_clicked = 2
   \<and> show_more shelf shelf_clicked \<noteq> shelf_clicked"
  by code_simp

text \<open>
  C2, evaluated. After startup on three books with page size 2 and one click on the
  enabled button, \<open>remaining\<close> is \<open>-1\<close> and the button is still enabled: the click
  handler does not write the button.
\<close>

theorem button_enabled_after_last_page:
  "\<not> list_button_disabled shelf_started
   \<and> shelf_clicked = run shelf shelf_started [ListButtonClick]
   \<and> remaining shelf shelf_clicked = - 1
   \<and> \<not> list_button_disabled shelf_clicked"
  by code_simp

section \<open>Selecting a book\<close>

lemma active_of_truthy: "active_of pathArray = Some a \<Longrightarrow> truthy (active_of pathArray)"
  by (auto simp: active_of_def find_Some_iff split: option.splits)

lemma active_of_nonempty: "active_of pathArray = Some a \<Longrightarrow> a \<noteq> ''''"
  using active_of_truthy [of pathArray a] by (simp add: truthy_def)

lemma find_unique:
  "distinct (map f xs) \<Longrightarrow> b \<in> set xs \<Longrightarrow> List.find (\<lambda>x. f x = f b) xs = Some b"
  by (induction xs) (auto simp: rev_image_eqI)

lemma list_items_click_none: "active_of pathArray = None \<Longrightarrow> list_items_click e pathArray s = s"
  by (simp add: list_items_click_def truthy_def)

lemma list_items_click_first:
  assumes "active_of pathArray = Some a"
    and "List.find (\<lambda>x. id_book x = a) (books e) = Some b"
  shows "list_items_click e pathArray s =
           s\<lparr> list_active_open := True,
              list_blur_src := image_book b,
              list_image_src := image_book b,
              list_title := title b,
              list_subtitle :=
                author_name e (author b) @ '' ('' @ getFullYear e (published b) @ '')'',
              list_description := description b \<rparr>"
  using assms active_of_truthy [OF assms(1)] by (simp add: list_items_click_def)

text \<open>
  C8. Let a click capture the identifier \<open>a\<close>. If the identifiers of the dataset are
  unique and the dataset has a record \<open>b\<close> with identifier \<open>a\<close>, the detail panel is
  opened and shows the fields of \<open>b\<close>, and nothing else changes; the match list of the
  state plays no part. If the dataset has no record with identifier \<open>a\<close>, the state is
  unchanged.
\<close>

theorem list_items_click_lookup:
  assumes "active_of pathArray = Some a"
  shows "(distinct (map id_book (books e)) \<and> b \<in> set (books e) \<and> id_book b = a \<longrightarrow>
            list_items_click e pathArray s =
              s\<lparr> list_active_open := True,
                 list_blur_src := image_book b,
                 list_image_src := image_book b,
                 list_title := title b,
                 list_subtitle :=
                   author_name e (author b) @ '' ('' @ getFullYear e (published b) @ '')'',
                 list_description := description b \<rparr>)
       \<and> ((\<forall>x\<in>set (books e). id_book x \<noteq> a) \<longrightarrow> list_items_click e pathArray s = s)"
proof (intro conjI impI)
  assume "distinct (map id_book (books e)) \<and> b \<in> set (books e) \<and> id_book b = a"
  then have "List.find (\<lambda>x. id_book x = a) (books e) = Some b"
    using find_unique [of id_book "books e" b] by auto
  with assms show "list_items_click e pathArray s =
      s\<lparr> list_active_open := True,
         list_blur_src := image_book b,
         list_image_src := image_book b,
         list_title := title b,
         list_subtitle :=
           author_name e (author b) @ '' ('' @ getFullYear e (published b) @ '')'',
         list_description := description b \<rparr>"
    by (rule list_items_click_first)
next
  assume "\<forall>x\<in>set (books e). id_book x \<noteq> a"
  then have "List.find (\<lambda>x. id_book x = a) (books e) = None"
    by (simp add: find_None_iff)
  then show "list_items_click e pathArray s = s"
    using assms by (simp add: list_items_click_def Let_def)
qed

theorem list_items_click_lookup_witness:
  "active_of [\<lparr>dataset_preview = None\<rparr>, \<lparr>dataset_preview = Some ''d1''\<rparr>] = Some ''d1''
   \<and> distinct (map id_book (books shelf)) \<and> dune \<in> set (books shelf) \<and> id_book dune = ''d1''
   \<and> matches shelf_searched = [hobbit]
   \<and> list_items_click shelf [\<lparr>dataset_preview = None\<rparr>, \<lparr>dataset_preview = Some ''d1''\<rparr>]
        shelf_searched
       = shelf_searched\<lparr> list_active_open := True, list_blur_src := ''dune.jpg'',
           list_image_src := ''dune.jpg'', list_title := ''Dune'',
           list_subtitle := ''Herbert (1965)'', list_description := ''Arrakis'' \<rparr>
   \<and> active_of [\<lparr>dataset_preview = Some ''zz''\<rparr>] = Some ''zz''
   \<and> ''zz'' \<notin> set (map id_book (books shelf))
   \<and> list_items_click shelf [\<lparr>dataset_preview = Some ''zz''\<rparr>] shelf_searched = shelf_searched"
proof -
  let ?p = "[\<lparr>dataset_preview = None\<rparr>, \<lparr>dataset_preview = Some ''d1''\<rparr>]"
  let ?q = "[\<lparr>dataset_preview = Some ''zz''\<rparr>]"
  have a: "active_of ?p = Some ''d1''"
    and u: "distinct (map id_book (books shelf))" and d: "dune \<in> set (books shelf)"
    and i: "id_book dune = ''d1''" and m: "matches shelf_searched = [hobbit]"
    and z: "active_of ?q = Some ''zz''" and n: "''zz'' \<notin> set (map id_book (books shelf))"
    by code_simp+
  have f: "image_book dune = ''dune.jpg''" "title dune = ''Dune''"
    "author_name shelf (author dune) @ '' ('' @ getFullYear shelf (published dune) @ '')''
       = ''Herbert (1965)''"
    "description dune = ''Arrakis''"
    by code_simp+
  from list_items_click_lookup [OF a, of shelf dune shelf_searched] u d i
  have "list_items_click shelf ?p shelf_searched
       = shelf_searched\<lparr> list_active_open := True, list_blur_src := ''dune.jpg'',
           list_image_src := ''dune.jpg'', list_title := ''Dune'',
           list_subtitle := ''Herbert (1965)'', list_description := ''Arrakis'' \<rparr>"
    by (simp only: f)
  moreover have "\<forall>x\<in>set (books shelf). id_book x \<noteq> ''zz''"
    by code_simp
  with list_items_click_lookup [OF z, of shelf dune shelf_searched]
  have "list_items_click shelf ?q shelf_searched = shelf_searched"
    by blast
  ultimately show ?thesis using a u d i m z n by blast
qed

section \<open>Revealing the whole result\<close>

lemma show_more_clicks:
  "page (foldl (handle e) s (replicate k ListButtonClick)) = page s + int k
   \<and> matches (foldl (handle e) s (replicate k ListButtonClick)) = matches s
   \<and> list_button_disabled (foldl (handle e) s (replicate k ListButtonClick))
       = list_button_disabled s"
  by (induction k arbitrary: s) (simp_all add: show_more_def Let_def displayBooks_def)

lemma reveals_needed_enough:
  assumes "0 < BOOKS_PER_PAGE e"
  shows "int n \<le> (1 + int (reveals_needed e n)) * BOOKS_PER_PAGE e"
proof -
  let ?B = "BOOKS_PER_PAGE e"
  let ?q = "(int n + ?B - 1) div ?B"
  have "int n + ?B - 1 = ?q * ?B + (int n + ?B - 1) mod ?B" by simp
  moreover have "(int n + ?B - 1) mod ?B < ?B" using assms by simp
  ultimately have q: "int n \<le> ?q * ?B" by linarith
  show ?thesis
  proof (cases "1 \<le> ?q")
    case True
    then have "1 + int (reveals_needed e n) = ?q" by (simp add: reveals_needed_def)
    then show ?thesis using q by simp
  next
    case False
    then have "?q * ?B \<le> 0" using assms by (simp add: mult_le_0_iff)
    then have "int n \<le> 0" using q by linarith
    then show ?thesis using assms by simp
  qed
qed

text \<open>The part of C5 that holds: after a filter submission and \<open>ceil(n / pageSize) - 1\<close>
  clicks every record of the result is rendered. The clicks leave the button as the
  submission set it.\<close>

lemma reveal_all_rendered:
  assumes "0 < BOOKS_PER_PAGE e"
    and "s' = run e (search_submit e f s)
                (replicate (reveals_needed e (length (search_result e f))) ListButtonClick)"
  shows "list_items s' = map (createBookElement e) (search_result e f)"
    and "list_button_disabled s' = (int (length (search_result e f)) \<le> BOOKS_PER_PAGE e)"
proof -
  let ?k = "reveals_needed e (length (search_result e f))"
  let ?s0 = "search_submit e f s"
  have p0: "page ?s0 = 1" and m0: "matches ?s0 = search_result e f"
    and b0: "list_button_disabled ?s0 = (int (length (search_result e f)) \<le> BOOKS_PER_PAGE e)"
    by (auto simp: search_submit_def Let_def displayBooks_def)
  have inv: "rendered_inv e s'"
    using assms rendered_foldl [of e ?s0] rendered_search_submit [of e f s] p0
    by (simp add: run_def)
  have p: "page s' = 1 + int ?k" and m: "matches s' = search_result e f"
    using show_more_clicks [of e ?s0 ?k] p0 m0 assms(2) by (simp_all add: run_def)
  have "int (length (search_result e f)) \<le> page s' * BOOKS_PER_PAGE e"
    using reveals_needed_enough [OF assms(1)] p by simp
  then have "take (nat (page s' * BOOKS_PER_PAGE e)) (matches s') = matches s'"
    using m by simp
  then show "list_items s' = map (createBookElement e) (search_result e f)"
    using inv m by (simp add: rendered_inv_def)
  show "list_button_disabled s' = (int (length (search_result e f)) \<le> BOOKS_PER_PAGE e)"
    using show_more_clicks [of e ?s0 ?k] b0 assms(2) by (simp add: run_def)
qed

text \<open>
  C5, evaluated. Three books, page size 2: after a submission that matches all three
  and \<open>ceil(3 / 2) - 1 = 1\<close> click, every record is rendered, and the button is still
  enabled.
\<close>

theorem button_enabled_after_reveal_all:
  "search_result shelf (query '''') = [hobbit, dune, towers]
   \<and> reveals_needed shelf 3 = 1
   \<and> \<not> list_button_disabled (run shelf shelf_started [SearchSubmit (query '''')])
   \<and> list_items (run shelf shelf_started [SearchSubmit (query ''''), ListButtonClick])
        = map (createBookElement shelf) [hobbit, dune, towers]
   \<and> \<not> list_button_disabled (run shelf shelf_started [SearchSubmit (query ''''), ListButtonClick])"
  by code_simp


end
